theory Spec2Isabelle
  imports Complex_Main "HOL-Library.Sublist" "HOL-Library.Multiset"
begin

section \<open>CSV Explorer: the filter evaluator and the count aggregations\<close>

text \<open>
  The development embeds \<^verbatim>\<open>apply_filters\<close> and the two counting aggregations of
  \<^verbatim>\<open>viz_area\<close> from \<^verbatim>\<open>CSV-Explorer.py\<close>. The program works on pandas data frames;
  the part of pandas that the embedded lines use is written out below, for
  pandas 1.x/2.x (the versions that go with \<^verbatim>\<open>st.experimental_rerun\<close>).
\<close>

subsection \<open>Cell values\<close>

text \<open>
  A float64 value. Comparisons of floats are exact, so a finite float is modelled by
  the rational number it denotes. A cell of an int64 or bool column enters a
  comparison with a Python float as the float64 numpy converts it to, and is stored
  here as that value.
\<close>

datatype pyfloat = NaN | NInf | Fin rat | PInf

text \<open>IEEE comparison: every ordered comparison with NaN is false.\<close>

fun fl_lt :: "pyfloat \<Rightarrow> pyfloat \<Rightarrow> bool" where
  "fl_lt NaN _ = False"
| "fl_lt _ NaN = False"
| "fl_lt _ NInf = False"
| "fl_lt NInf _ = True"
| "fl_lt PInf _ = False"
| "fl_lt _ PInf = True"
| "fl_lt (Fin a) (Fin b) = (a < b)"

definition fl_eq :: "pyfloat \<Rightarrow> pyfloat \<Rightarrow> bool" where
  "fl_eq a b = (a \<noteq> NaN \<and> b \<noteq> NaN \<and> a = b)"

definition fl_ne :: "pyfloat \<Rightarrow> pyfloat \<Rightarrow> bool" where
  "fl_ne a b = (\<not> fl_eq a b)"

definition fl_le :: "pyfloat \<Rightarrow> pyfloat \<Rightarrow> bool" where
  "fl_le a b = (fl_lt a b \<or> fl_eq a b)"

definition fl_gt :: "pyfloat \<Rightarrow> pyfloat \<Rightarrow> bool" where
  "fl_gt a b = fl_lt b a"

definition fl_ge :: "pyfloat \<Rightarrow> pyfloat \<Rightarrow> bool" where
  "fl_ge a b = fl_le b a"

text \<open>
  An element of an object column as \<^verbatim>\<open>load_csv\<close> produces it (\<^verbatim>\<open>pd.read_csv\<close>
  without \<^verbatim>\<open>parse_dates\<close>): a \<^verbatim>\<open>str\<close>, or the missing marker (a float NaN
  stored as an object). Dates in a CSV file stay text, so a column of dates is an
  object column too.
\<close>

datatype pyobj = Str string | Missing

subsection \<open>Data frames\<close>

text \<open>
  A column is an array of one dtype. \<open>NumCol\<close> stands for the dtypes that
  \<^verbatim>\<open>pd.api.types.is_numeric_dtype\<close> accepts (int64, float64, bool), \<open>ObjCol\<close> for
  dtype object. A data frame is its row labels and its named columns, in order.
\<close>

datatype column = NumCol "pyfloat list" | ObjCol "pyobj list"

record dataframe =
  index :: "nat list"
  columns :: "(string \<times> column) list"

fun is_numeric_dtype :: "column \<Rightarrow> bool" where
  "is_numeric_dtype (NumCol _) = True"
| "is_numeric_dtype (ObjCol _) = False"

datatype error = KeyError | TypeError | ReError | ValueError

text \<open>\<^verbatim>\<open>df[name]\<close>: the column of that name, \<^verbatim>\<open>KeyError\<close> when there is none.\<close>

definition getitem :: "dataframe \<Rightarrow> string \<Rightarrow> error + column" where
  "getitem df name = (case map_of (columns df) name of None \<Rightarrow> Inl KeyError | Some c \<Rightarrow> Inr c)"

text \<open>
  Boolean indexing \<^verbatim>\<open>out[mask]\<close>: the rows whose mask entry is true, in order, with
  their labels; every column keeps its name, its position and its dtype.
\<close>

definition select :: "bool list \<Rightarrow> 'a list \<Rightarrow> 'a list" where
  "select msk xs = map snd (filter fst (zip msk xs))"

fun col_select :: "bool list \<Rightarrow> column \<Rightarrow> column" where
  "col_select msk (NumCol xs) = NumCol (select msk xs)"
| "col_select msk (ObjCol xs) = ObjCol (select msk xs)"

definition df_select :: "bool list \<Rightarrow> dataframe \<Rightarrow> dataframe" where
  "df_select msk df =
     \<lparr>index = select msk (index df),
      columns = map (\<lambda>(name, c). (name, col_select msk c)) (columns df)\<rparr>"

text \<open>\<^verbatim>\<open>df.copy()\<close>: a frame with the same labels, columns and cells.\<close>

definition df_copy :: "dataframe \<Rightarrow> dataframe" where
  "df_copy df = df"

subsection \<open>Filters\<close>

text \<open>
  The operand \<^verbatim>\<open>f["val"]\<close> is whatever the widget returned (a float, a date, a str,
  a list of str). \<^verbatim>\<open>apply_filters\<close> uses it in three ways only, and the model
  records what each gives: \<^verbatim>\<open>float(val)\<close> (\<open>None\<close> when it raises),
  \<^verbatim>\<open>str(val)\<close>, and \<^verbatim>\<open>[str(x) for x in val]\<close> (\<open>None\<close> when \<^verbatim>\<open>val\<close> is not
  iterable).
\<close>

record pyval =
  py_float :: "pyfloat option"
  py_str :: string
  py_iter_str :: "string list option"

record filter_entry =
  col :: string
  op :: string
  val :: pyval

text \<open>
  \<^verbatim>\<open>re.compile(pat, flags=re.IGNORECASE)\<close> as pandas' \<^verbatim>\<open>str.contains\<close> calls it
  (\<^verbatim>\<open>regex=True\<close> is the default): \<open>None\<close> when the pattern does not compile
  (\<^verbatim>\<open>re.error\<close>), otherwise the test \<^verbatim>\<open>pat.search(x) is not None\<close>. Python's regular
  expressions are a parameter of the model.
\<close>

type_synonym regex_engine = "string \<Rightarrow> (string \<Rightarrow> bool) option"

text \<open>
  \<^verbatim>\<open>Series.astype(str)\<close> on an object column: every element becomes its \<^verbatim>\<open>str()\<close>,
  the missing marker included, which becomes the text \<^verbatim>\<open>nan\<close>.
\<close>

fun str_of_obj :: "pyobj \<Rightarrow> string" where
  "str_of_obj (Str s) = s"
| "str_of_obj Missing = ''nan''"

definition astype_str :: "pyobj list \<Rightarrow> pyobj list" where
  "astype_str xs = map (\<lambda>c. Str (str_of_obj c)) xs"

text \<open>
  \<^verbatim>\<open>s.str.contains(pat, na=..., case=False)\<close> with the compiled pattern's test \<open>m\<close>:
  a missing element gives \<open>na\<close>, a \<^verbatim>\<open>str\<close> element the test's result.
\<close>

definition str_contains :: "(string \<Rightarrow> bool) \<Rightarrow> bool \<Rightarrow> pyobj list \<Rightarrow> bool list" where
  "str_contains m na s = map (\<lambda>c. case c of Missing \<Rightarrow> na | Str t \<Rightarrow> m t) s"

text \<open>\<^verbatim>\<open>s.isin(values)\<close> for a list of \<^verbatim>\<open>str\<close> values.\<close>

definition isin :: "pyobj list \<Rightarrow> string list \<Rightarrow> bool list" where
  "isin s vs = map (\<lambda>c. c \<in> set (map Str vs)) s"

text \<open>
  One pass of the loop body of \<^verbatim>\<open>apply_filters\<close>, up to the mask: \<open>Inr (Some mask)\<close>
  when a branch runs \<^verbatim>\<open>out = out[mask]\<close>, \<open>Inr None\<close> when the body leaves \<^verbatim>\<open>out\<close>
  as it is (the \<^verbatim>\<open>continue\<close> after a failed \<^verbatim>\<open>float(val)\<close>, or no operator branch
  matching), \<open>Inl\<close> when it raises. The branches are those of the source, in its order.
\<close>

definition filter_mask ::
    "regex_engine \<Rightarrow> filter_entry \<Rightarrow> dataframe \<Rightarrow> error + bool list option" where
  "filter_mask rx f out =
     (case getitem out (col f) of
        Inl e \<Rightarrow> Inl e
      | Inr (NumCol xs) \<Rightarrow>
          (case py_float (val f) of
             None \<Rightarrow> Inr None
           | Some v \<Rightarrow>
               if op f = ''=='' then Inr (Some (map (\<lambda>x. fl_eq x v) xs))
               else if op f = ''!='' then Inr (Some (map (\<lambda>x. fl_ne x v) xs))
               else if op f = ''<'' then Inr (Some (map (\<lambda>x. fl_lt x v) xs))
               else if op f = ''<='' then Inr (Some (map (\<lambda>x. fl_le x v) xs))
               else if op f = ''>'' then Inr (Some (map (\<lambda>x. fl_gt x v) xs))
               else if op f = ''>='' then Inr (Some (map (\<lambda>x. fl_ge x v) xs))
               else Inr None)
      | Inr (ObjCol xs) \<Rightarrow>
          (let s = astype_str xs in
           if op f = ''=='' then Inr (Some (map (\<lambda>c. c = Str (py_str (val f))) s))
           else if op f = ''!='' then Inr (Some (map (\<lambda>c. c \<noteq> Str (py_str (val f))) s))
           else if op f = ''contains'' then
             (case rx (py_str (val f)) of
                None \<Rightarrow> Inl ReError
              | Some m \<Rightarrow> Inr (Some (str_contains m False s)))
           else if op f = ''not contains'' then
             (case rx (py_str (val f)) of
                None \<Rightarrow> Inl ReError
              | Some m \<Rightarrow> Inr (Some (map Not (str_contains m False s))))
           else if op f = ''in'' then
             (case py_iter_str (val f) of
                None \<Rightarrow> Inl TypeError
              | Some vs \<Rightarrow> Inr (Some (isin s vs)))
           else if op f = ''not in'' then
             (case py_iter_str (val f) of
                None \<Rightarrow> Inl TypeError
              | Some vs \<Rightarrow> Inr (Some (map Not (isin s vs))))
           else Inr None))"

text \<open>The loop over the filters: an exception ends it.\<close>

fun run_filters :: "regex_engine \<Rightarrow> filter_entry list \<Rightarrow> dataframe \<Rightarrow> error + dataframe" where
  "run_filters rx [] out = Inr out"
| "run_filters rx (f # fs) out =
     (case filter_mask rx f out of
        Inl e \<Rightarrow> Inl e
      | Inr None \<Rightarrow> run_filters rx fs out
      | Inr (Some msk) \<Rightarrow> run_filters rx fs (df_select msk out))"

text \<open>
  \<^verbatim>\<open>apply_filters(df)\<close>; the list \<^verbatim>\<open>st.session_state.get("filters", [])\<close> is the
  argument \<open>filters\<close>.
\<close>

definition apply_filters :: "regex_engine \<Rightarrow> filter_entry list \<Rightarrow> dataframe \<Rightarrow> error + dataframe" where
  "apply_filters rx filters df = run_filters rx filters (df_copy df)"

text \<open>
  A filter is settled on a frame when its pass over that frame raises nothing and
  removes no row.
\<close>

definition settled :: "regex_engine \<Rightarrow> filter_entry \<Rightarrow> dataframe \<Rightarrow> bool" where
  "settled rx f d =
     (case filter_mask rx f d of
        Inl e \<Rightarrow> False
      | Inr None \<Rightarrow> True
      | Inr (Some k) \<Rightarrow> df_select k d = d)"

subsection \<open>Rows\<close>

text \<open>
  The rows of a frame, each with its label and its cells in column order. A pandas frame
  has as many cells in every column as it has labels.
\<close>

datatype cell = NumCell pyfloat | ObjCell pyobj

fun col_cells :: "column \<Rightarrow> cell list" where
  "col_cells (NumCol xs) = map NumCell xs"
| "col_cells (ObjCol xs) = map ObjCell xs"

primrec rows_with :: "(nat \<times> cell list) list \<Rightarrow> cell list list \<Rightarrow> (nat \<times> cell list) list" where
  "rows_with rs [] = rs"
| "rows_with rs (c # cs) = rows_with (map2 (\<lambda>(i, r) x. (i, r @ [x])) rs c) cs"

definition df_rows :: "dataframe \<Rightarrow> (nat \<times> cell list) list" where
  "df_rows df =
     rows_with (map (\<lambda>i. (i, [])) (index df)) (map (\<lambda>(name, c). col_cells c) (columns df))"

definition wf_df :: "dataframe \<Rightarrow> bool" where
  "wf_df df = list_all (\<lambda>(name, c). length (col_cells c) = length (index df)) (columns df)"

subsection \<open>The evaluator over an object store\<close>

text \<open>
  Python variables hold references. To state what \<^verbatim>\<open>apply_filters\<close> does to the frame
  it is given, the same function is written over a store of frames: an address is a
  position in the store, \<^verbatim>\<open>df.copy()\<close> and \<^verbatim>\<open>out[mask]\<close> each build a new frame at
  a fresh address, and the assignment \<^verbatim>\<open>out = ...\<close> rebinds the local variable.
\<close>

type_synonym store = "dataframe list"

definition alloc :: "store \<Rightarrow> dataframe \<Rightarrow> store \<times> nat" where
  "alloc h d = (h @ [d], length h)"

fun run_filters_store ::
    "regex_engine \<Rightarrow> filter_entry list \<Rightarrow> store \<Rightarrow> nat \<Rightarrow> store \<times> (error + nat)" where
  "run_filters_store rx [] h out = (h, Inr out)"
| "run_filters_store rx (f # fs) h out =
     (case filter_mask rx f (h ! out) of
        Inl e \<Rightarrow> (h, Inl e)
      | Inr None \<Rightarrow> run_filters_store rx fs h out
      | Inr (Some msk) \<Rightarrow>
          (case alloc h (df_select msk (h ! out)) of
             (h', out') \<Rightarrow> run_filters_store rx fs h' out'))"

definition apply_filters_store ::
    "regex_engine \<Rightarrow> filter_entry list \<Rightarrow> store \<Rightarrow> nat \<Rightarrow> store \<times> (error + nat)" where
  "apply_filters_store rx filters h df =
     (case alloc h (df_copy (h ! df)) of (h', out) \<Rightarrow> run_filters_store rx filters h' out)"

subsection \<open>The counting aggregations of the bar and line charts\<close>

text \<open>
  \<^verbatim>\<open>plot_df.groupby(x, dropna=False)\<close> groups the rows by their value in column \<open>x\<close>.
  The groups come in ascending order of the key, and with \<^verbatim>\<open>dropna=False\<close> the rows
  with a missing key form one group, the last. Python orders \<^verbatim>\<open>str\<close> keys
  lexicographically by code point.
\<close>

fun str_le :: "string \<Rightarrow> string \<Rightarrow> bool" where
  "str_le [] _ = True"
| "str_le (a # as) [] = False"
| "str_le (a # as) (b # bs) = ((of_char a :: nat) < of_char b \<or> (a = b \<and> str_le as bs))"

definition num_key_le :: "pyfloat \<Rightarrow> pyfloat \<Rightarrow> bool" where
  "num_key_le a b = (b = NaN \<or> fl_le a b)"

fun obj_key_le :: "pyobj \<Rightarrow> pyobj \<Rightarrow> bool" where
  "obj_key_le _ Missing = True"
| "obj_key_le Missing (Str t) = False"
| "obj_key_le (Str s) (Str t) = str_le s t"

fun insort_by :: "('a \<Rightarrow> 'a \<Rightarrow> bool) \<Rightarrow> 'a \<Rightarrow> 'a list \<Rightarrow> 'a list" where
  "insort_by le x [] = [x]"
| "insort_by le x (y # ys) = (if le x y then x # y # ys else y # insort_by le x ys)"

definition group_keys :: "('a \<Rightarrow> 'a \<Rightarrow> bool) \<Rightarrow> 'a list \<Rightarrow> 'a list" where
  "group_keys le ks = foldr (insort_by le) (remdups ks) []"

text \<open>The values \<open>vs\<close> of the rows whose key is \<open>k\<close>, in row order.\<close>

definition group_values :: "'k list \<Rightarrow> 'v list \<Rightarrow> 'k \<Rightarrow> 'v list" where
  "group_values ks vs k = map snd (filter (\<lambda>(k', v). k' = k) (zip ks vs))"

text \<open>
  A grouped reduction to a number per group: the series of the group keys (a column of
  the key column's dtype) with the reduced value of each group.
\<close>

fun groupby_reduce :: "('v list \<Rightarrow> nat) \<Rightarrow> column \<Rightarrow> 'v list \<Rightarrow> column \<times> nat list" where
  "groupby_reduce agg (NumCol ks) vs =
     (let us = group_keys num_key_le ks in (NumCol us, map (\<lambda>k. agg (group_values ks vs k)) us))"
| "groupby_reduce agg (ObjCol ks) vs =
     (let us = group_keys obj_key_le ks in (ObjCol us, map (\<lambda>k. agg (group_values ks vs k)) us))"

fun notna :: "cell \<Rightarrow> bool" where
  "notna (NumCell x) = (x \<noteq> NaN)"
| "notna (ObjCell c) = (c \<noteq> Missing)"

text \<open>\<^verbatim>\<open>plot_df.groupby(x, dropna=False)[y].count()\<close>: the values of \<open>y\<close> that are not missing, per group.\<close>

definition groupby_count :: "dataframe \<Rightarrow> string \<Rightarrow> string \<Rightarrow> error + column \<times> nat list" where
  "groupby_count df x y =
     (case getitem df x of
        Inl e \<Rightarrow> Inl e
      | Inr kc \<Rightarrow>
          (case getitem df y of
             Inl e \<Rightarrow> Inl e
           | Inr yc \<Rightarrow> Inr (groupby_reduce (\<lambda>g. length (filter notna g)) kc (col_cells yc))))"

text \<open>\<^verbatim>\<open>plot_df.groupby(x, dropna=False).size()\<close>: the rows, per group.\<close>

definition groupby_size :: "dataframe \<Rightarrow> string \<Rightarrow> error + column \<times> nat list" where
  "groupby_size df x =
     (case getitem df x of
        Inl e \<Rightarrow> Inl e
      | Inr kc \<Rightarrow> Inr (groupby_reduce length kc (index df)))"

text \<open>
  \<^verbatim>\<open>.reset_index()\<close> and \<^verbatim>\<open>.reset_index(name="count")\<close> on such a series: a frame with
  the keys as a column named after the grouping column and the values as an int64 column;
  pandas raises \<^verbatim>\<open>ValueError\<close> (cannot insert, already exists) when the two names are the same.
\<close>

definition reset_index :: "string \<Rightarrow> string \<Rightarrow> column \<times> nat list \<Rightarrow> error + dataframe" where
  "reset_index key_name value_name sr =
     (if key_name = value_name then Inl ValueError
      else Inr \<lparr>index = [0..<length (snd sr)],
                columns = [(key_name, fst sr), (value_name, NumCol (map (\<lambda>n. Fin (of_nat n)) (snd sr)))]\<rparr>)"

text \<open>
  The data of a bar or line chart in \<^verbatim>\<open>viz_area\<close> when the aggregation chosen is
  \<^verbatim>\<open>count\<close>: with a measure \<open>y\<close> that is given (\<^verbatim>\<open>if y\<close>: not \<^verbatim>\<open>None\<close> and not the empty
  name) and of a numeric dtype, the count of \<open>y\<close> per group; otherwise the rows per group.
\<close>

definition size_frame :: "dataframe \<Rightarrow> string \<Rightarrow> error + dataframe" where
  "size_frame plot_df x =
     (case groupby_size plot_df x of Inl e \<Rightarrow> Inl e | Inr sr \<Rightarrow> reset_index x ''count'' sr)"

definition count_frame :: "dataframe \<Rightarrow> string \<Rightarrow> string \<Rightarrow> error + dataframe" where
  "count_frame plot_df x y =
     (case groupby_count plot_df x y of Inl e \<Rightarrow> Inl e | Inr sr \<Rightarrow> reset_index x y sr)"

definition bar_count_data :: "dataframe \<Rightarrow> string \<Rightarrow> string option \<Rightarrow> error + dataframe" where
  "bar_count_data plot_df x y =
     (case y of
        None \<Rightarrow> size_frame plot_df x
      | Some yn \<Rightarrow>
          if yn = [] then size_frame plot_df x
          else
            (case getitem plot_df yn of
               Inl e \<Rightarrow> Inl e
             | Inr yc \<Rightarrow>
                 if is_numeric_dtype yc then count_frame plot_df x yn
                 else size_frame plot_df x))"

text \<open>The rows of each group whose value of \<open>y\<close> is missing: the yardstick for the two counts.\<close>

definition groupby_missing :: "dataframe \<Rightarrow> string \<Rightarrow> string \<Rightarrow> error + column \<times> nat list" where
  "groupby_missing df x y =
     (case getitem df x of
        Inl e \<Rightarrow> Inl e
      | Inr kc \<Rightarrow>
          (case getitem df y of
             Inl e \<Rightarrow> Inl e
           | Inr yc \<Rightarrow>
               Inr (groupby_reduce (\<lambda>g. length (filter (\<lambda>v. \<not> notna v) g)) kc (col_cells yc))))"

subsection \<open>Concrete inputs\<close>

text \<open>
  Python's regular expressions on the patterns the examples use: a pattern of ASCII
  letters, digits and spaces has no metacharacter, so \<^verbatim>\<open>search\<close> under
  \<^verbatim>\<open>re.IGNORECASE\<close> is substring search up to letter case. The examples use this engine
  on such patterns only; it answers \<open>None\<close> outside them and is not a model of Python there.
\<close>

definition ascii_lower :: "char \<Rightarrow> char" where
  "ascii_lower c =
     (let n = (of_char c :: nat) in if 65 \<le> n \<and> n \<le> 90 then char_of (n + 32) else c)"

definition plain_pattern :: "string \<Rightarrow> bool" where
  "plain_pattern pat =
     list_all (\<lambda>c. let n = (of_char c :: nat) in
        (48 \<le> n \<and> n \<le> 57) \<or> (65 \<le> n \<and> n \<le> 90) \<or> (97 \<le> n \<and> n \<le> 122) \<or> n = 32) pat"

definition plain_regex :: regex_engine where
  "plain_regex pat =
     (if plain_pattern pat then Some (\<lambda>t. sublist (map ascii_lower pat) (map ascii_lower t))
      else None)"

text \<open>
  A \<^verbatim>\<open>str\<close> operand \<open>s\<close>, with what \<^verbatim>\<open>float(s)\<close> gives (\<open>None\<close> when \<open>s\<close> is not the
  text of a number; \<^verbatim>\<open>float("nan")\<close> is NaN); iterating it gives its characters. A float
  operand with its \<^verbatim>\<open>str()\<close>: it is not iterable.
\<close>

definition str_val :: "string \<Rightarrow> pyfloat option \<Rightarrow> pyval" where
  "str_val s x = \<lparr>py_float = x, py_str = s, py_iter_str = Some (map (\<lambda>c. [c]) s)\<rparr>"

definition text_val :: "string \<Rightarrow> pyval" where
  "text_val s = str_val s None"

definition float_val :: "pyfloat \<Rightarrow> string \<Rightarrow> pyval" where
  "float_val x s = \<lparr>py_float = Some x, py_str = s, py_iter_str = None\<rparr>"

definition ages :: dataframe where
  "ages = \<lparr>index = [0, 1, 2, 3], columns = [(''age'', NumCol [Fin 10, Fin 20, Fin 30, NaN])]\<rparr>"

definition cities :: dataframe where
  "cities = \<lparr>index = [0, 1], columns = [(''city'', ObjCol [Str ''NYC'', Missing])]\<rparr>"

definition visits :: dataframe where
  "visits = \<lparr>index = [0, 1], columns = [(''when'', ObjCol [Str ''2024-01-05'', Str ''2024-02-10''])]\<rparr>"

definition people :: dataframe where
  "people =
     \<lparr>index = [0, 1, 2],
      columns = [(''city'', ObjCol [Str ''B'', Str ''A'', Str ''A'']),
                 (''age'', NumCol [Fin 30, Fin 10, NaN])]\<rparr>"

section \<open>Boolean indexing\<close>

lemma select_Nil [simp]: "select [] xs = []" "select m [] = []"
  by (simp_all add: select_def)

lemma select_Cons [simp]:
  "select (b # m) (x # xs) = (if b then x # select m xs else select m xs)"
  by (simp add: select_def)

lemma select_map: "select m (map f xs) = map f (select m xs)"
proof (induction m arbitrary: xs)
  case Nil
  show ?case by simp
next
  case (Cons b m)
  show ?case by (cases xs) (simp_all add: Cons.IH)
qed

lemma select_conj: "select (select m k) (select m ys) = select (map2 (\<and>) m k) ys"
proof (induction m arbitrary: k ys)
  case Nil
  show ?case by simp
next
  case (Cons b m)
  show ?case
  proof (cases k)
    case Nil
    then show ?thesis by simp
  next
    case k: (Cons c k')
    show ?thesis
    proof (cases ys)
      case Nil
      then show ?thesis by simp
    next
      case (Cons y ys')
      with k show ?thesis by (simp add: Cons.IH)
    qed
  qed
qed

lemma length_select_le: "length (select m xs) \<le> length xs"
proof (induction m arbitrary: xs)
  case Nil
  show ?case by simp
next
  case (Cons b m)
  show ?case
  proof (cases xs)
    case Nil
    then show ?thesis by simp
  next
    case (Cons x xs')
    then show ?thesis using Cons.IH [of xs'] by simp
  qed
qed

lemma select_fixed_conj:
  "select k ys = ys \<Longrightarrow> select (map2 (\<and>) m k) ys = select m ys"
proof (induction ys arbitrary: k m)
  case Nil
  show ?case by simp
next
  case (Cons y ys)
  show ?case
  proof (cases k)
    case Nil
    with Cons.prems show ?thesis by simp
  next
    case k: (Cons c k')
    show ?thesis
    proof (cases c)
      case False
      with k Cons.prems have "select k' ys = y # ys" by simp
      moreover have "length (select k' ys) \<le> length ys" by (rule length_select_le)
      ultimately show ?thesis by simp
    next
      case True
      with k Cons.prems have fixd: "select k' ys = ys" by simp
      show ?thesis
      proof (cases m)
        case Nil
        then show ?thesis by simp
      next
        case (Cons b m')
        with k True show ?thesis by (simp add: Cons.IH [OF fixd])
      qed
    qed
  qed
qed

lemma select_self_conj: "map2 (\<and>) k k = k"
  by (induction k) simp_all

lemma subseq_select: "subseq (select m xs) xs"
proof (induction m arbitrary: xs)
  case Nil
  show ?case by simp
next
  case (Cons b m)
  show ?case
  proof (cases xs)
    case Nil
    then show ?thesis by simp
  next
    case (Cons x xs')
    then show ?thesis using Cons.IH [of xs'] by auto
  qed
qed

lemma select_zip: "select m (zip xs ys) = zip (select m xs) (select m ys)"
proof (induction m arbitrary: xs ys)
  case Nil
  show ?case by simp
next
  case (Cons b m)
  show ?case
  proof (cases xs)
    case Nil
    then show ?thesis by simp
  next
    case xs: (Cons x xs')
    show ?thesis
    proof (cases ys)
      case Nil
      then show ?thesis by simp
    next
      case (Cons y ys')
      with xs show ?thesis by (simp add: Cons.IH)
    qed
  qed
qed

lemma mset_select_split:
  "length xs \<le> length m \<Longrightarrow> mset (select m xs) + mset (select (map Not m) xs) = mset xs"
proof (induction m arbitrary: xs)
  case Nil
  then show ?case by simp
next
  case (Cons b m)
  show ?case
  proof (cases xs)
    case Nil
    then show ?thesis by simp
  next
    case (Cons x xs')
    with Cons.prems have "length xs' \<le> length m" by simp
    from Cons.IH [OF this] Cons show ?thesis by simp
  qed
qed

section \<open>Properties of the filter evaluator\<close>

text \<open>
  Claim C2. For every table, evaluating the empty filter set returns a table equal to
  it: the same row labels and the same columns with the same cells, in the same order.
\<close>

theorem apply_filters_empty: "apply_filters rx [] df = Inr df"
  by (simp add: apply_filters_def df_copy_def)

subsection \<open>Filtering commutes with row selection\<close>

lemma getitem_select:
  "getitem (df_select m d) name = map_sum id (col_select m) (getitem d name)"
  by (simp add: getitem_def df_select_def map_of_map split: option.splits)

lemma filter_mask_select:
  "filter_mask rx f (df_select m d) = map_sum id (map_option (select m)) (filter_mask rx f d)"
proof (cases "getitem d (col f)")
  case (Inl e)
  then show ?thesis by (simp add: filter_mask_def getitem_select)
next
  case (Inr c)
  show ?thesis
  proof (cases c)
    case (NumCol xs)
    with Inr show ?thesis
      by (simp add: filter_mask_def getitem_select select_map split: option.splits)
  next
    case (ObjCol xs)
    with Inr show ?thesis
      by (simp add: filter_mask_def getitem_select select_map astype_str_def
          str_contains_def isin_def Let_def split: option.splits)
  qed
qed

lemma col_select_conj:
  "col_select (select m k) (col_select m c) = col_select (map2 (\<and>) m k) c"
  by (cases c) (simp_all add: select_conj)

lemma df_select_conj:
  "df_select (select m k) (df_select m d) = df_select (map2 (\<and>) m k) d"
  by (simp add: df_select_def select_conj col_select_conj split_def)

lemma col_select_fixed_conj:
  "col_select k c = c \<Longrightarrow> col_select (map2 (\<and>) m k) c = col_select m c"
  by (cases c) (simp_all add: select_fixed_conj)

lemma df_select_fixed_conj:
  assumes "df_select k d = d"
  shows "df_select (map2 (\<and>) m k) d = df_select m d"
proof -
  from assms have i: "select k (index d) = index d"
    by (metis df_select_def dataframe.select_convs(1))
  from assms have "map (\<lambda>(name, c). (name, col_select k c)) (columns d) = columns d"
    by (metis df_select_def dataframe.select_convs(2))
  then have "map (\<lambda>(name, c). (name, col_select k c)) (columns d) = map (\<lambda>p. p) (columns d)"
    by simp
  then have c: "\<forall>p \<in> set (columns d). col_select k (snd p) = snd p"
    unfolding map_eq_conv by (auto simp: split_def prod_eq_iff)
  have "map (\<lambda>(name, c). (name, col_select (map2 (\<and>) m k) c)) (columns d)
      = map (\<lambda>(name, c). (name, col_select m c)) (columns d)"
    unfolding map_eq_conv using c by (auto simp: col_select_fixed_conj)
  with i show ?thesis
    by (simp add: df_select_def select_fixed_conj)
qed

lemma settled_after:
  assumes "filter_mask rx f d = Inr (Some k)"
  shows "settled rx f (df_select k d)"
  using assms by (simp add: settled_def filter_mask_select df_select_conj select_self_conj)

lemma settled_select:
  assumes "settled rx f d"
  shows "settled rx f (df_select m d)"
proof (cases "filter_mask rx f d")
  case (Inl e)
  with assms show ?thesis by (simp add: settled_def)
next
  case (Inr r)
  show ?thesis
  proof (cases r)
    case None
    with Inr show ?thesis by (simp add: settled_def filter_mask_select)
  next
    case (Some k)
    with Inr assms have "df_select k d = d" by (simp add: settled_def)
    then have "df_select (map2 (\<and>) m k) d = df_select m d"
      by (rule df_select_fixed_conj)
    with Inr Some show ?thesis
      by (simp add: settled_def filter_mask_select df_select_conj)
  qed
qed

lemma settled_run:
  "settled rx f d \<Longrightarrow> run_filters rx gs d = Inr d' \<Longrightarrow> settled rx f d'"
proof (induction gs arbitrary: d)
  case Nil
  then show ?case by simp
next
  case (Cons g gs)
  show ?case
  proof (cases "filter_mask rx g d")
    case (Inl e)
    with Cons.prems show ?thesis by simp
  next
    case (Inr r)
    show ?thesis
    proof (cases r)
      case None
      with Inr Cons.prems Cons.IH [of d] show ?thesis by simp
    next
      case (Some k)
      with Inr Cons.prems have "run_filters rx gs (df_select k d) = Inr d'" by simp
      moreover from Cons.prems have "settled rx f (df_select k d)" by (simp add: settled_select)
      ultimately show ?thesis by (rule Cons.IH [rotated])
    qed
  qed
qed

lemma run_all_settled:
  "run_filters rx fs d = Inr d' \<Longrightarrow> \<forall>f \<in> set fs. settled rx f d'"
proof (induction fs arbitrary: d)
  case Nil
  then show ?case by simp
next
  case (Cons g gs)
  show ?case
  proof (cases "filter_mask rx g d")
    case (Inl e)
    with Cons.prems show ?thesis by simp
  next
    case (Inr r)
    show ?thesis
    proof (cases r)
      case None
      with Inr Cons.prems have run: "run_filters rx gs d = Inr d'" by simp
      from Inr None have "settled rx g d" by (simp add: settled_def)
      with run have "settled rx g d'" by (rule settled_run [rotated])
      with Cons.IH [OF run] show ?thesis by simp
    next
      case (Some k)
      with Inr Cons.prems have run: "run_filters rx gs (df_select k d) = Inr d'" by simp
      from Inr Some have "settled rx g (df_select k d)" by (simp add: settled_after)
      with run have "settled rx g d'" by (rule settled_run [rotated])
      with Cons.IH [OF run] show ?thesis by simp
    qed
  qed
qed

lemma run_settled:
  "\<forall>f \<in> set fs. settled rx f d \<Longrightarrow> run_filters rx fs d = Inr d"
proof (induction fs)
  case Nil
  show ?case by simp
next
  case (Cons g gs)
  then have g: "settled rx g d" and rest: "run_filters rx gs d = Inr d" by simp_all
  from g rest show ?case
    by (auto simp: settled_def split: sum.splits option.splits)
qed

lemma run_filters_again:
  "run_filters rx fs d = Inr d' \<Longrightarrow> run_filters rx fs d' = Inr d'"
  by (rule run_settled) (rule run_all_settled)

text \<open>
  Claim C3. Applying a filter set to the table it produced changes nothing:
  \<open>evaluate (evaluate T F) F\<close> equals \<open>evaluate T F\<close>. When the first evaluation
  raises, so does the composition, with the same exception.
\<close>

theorem apply_filters_idempotent:
  "(case apply_filters rx fs df of Inl e \<Rightarrow> Inl e | Inr df' \<Rightarrow> apply_filters rx fs df')
     = apply_filters rx fs df"
  by (cases "apply_filters rx fs df")
     (simp_all add: apply_filters_def df_copy_def run_filters_again)

subsection \<open>Rows under selection\<close>

lemma col_cells_select: "col_cells (col_select m c) = select m (col_cells c)"
  by (cases c) (simp_all add: select_map)

lemma rows_with_select:
  "rows_with (select m rs) (map (select m) cs) = select m (rows_with rs cs)"
proof (induction cs arbitrary: rs)
  case Nil
  show ?case by simp
next
  case (Cons c cs)
  have "map2 (\<lambda>(i, r) x. (i, r @ [x])) (select m rs) (select m c)
      = select m (map2 (\<lambda>(i, r) x. (i, r @ [x])) rs c)"
    by (simp add: select_zip [symmetric] select_map)
  then show ?case by (simp add: Cons.IH)
qed

lemma df_rows_select: "df_rows (df_select m d) = select m (df_rows d)"
proof -
  have cols: "map (\<lambda>(name, c). col_cells c) (columns (df_select m d))
      = map (select m) (map (\<lambda>(name, c). col_cells c) (columns d))"
    by (simp add: df_select_def split_def col_cells_select)
  have labels: "map (\<lambda>i. (i, [])) (index (df_select m d)) = select m (map (\<lambda>i. (i, [])) (index d))"
    by (simp add: df_select_def select_map)
  show ?thesis
    unfolding df_rows_def cols labels by (rule rows_with_select)
qed

lemma col_select_dtype: "is_numeric_dtype (col_select m c) = is_numeric_dtype c"
  by (cases c) simp_all

lemma df_select_names: "map fst (columns (df_select m d)) = map fst (columns d)"
  by (simp add: df_select_def split_def)

lemma df_select_dtypes:
  "map (\<lambda>(name, c). is_numeric_dtype c) (columns (df_select m d))
     = map (\<lambda>(name, c). is_numeric_dtype c) (columns d)"
  by (simp add: df_select_def split_def col_select_dtype)

lemma run_filters_rows:
  "run_filters rx fs d = Inr d' \<Longrightarrow>
     subseq (df_rows d') (df_rows d) \<and>
     map fst (columns d') = map fst (columns d) \<and>
     map (\<lambda>(name, c). is_numeric_dtype c) (columns d')
       = map (\<lambda>(name, c). is_numeric_dtype c) (columns d)"
proof (induction fs arbitrary: d)
  case Nil
  then show ?case by simp
next
  case (Cons f fs)
  show ?case
  proof (cases "filter_mask rx f d")
    case (Inl e)
    with Cons.prems show ?thesis by simp
  next
    case (Inr r)
    show ?thesis
    proof (cases r)
      case None
      with Inr Cons.prems Cons.IH [of d] show ?thesis by simp
    next
      case (Some k)
      with Inr Cons.prems have "run_filters rx fs (df_select k d) = Inr d'" by simp
      from Cons.IH [OF this]
      have sub: "subseq (df_rows d') (df_rows (df_select k d))"
        and names: "map fst (columns d') = map fst (columns d)"
        and kinds: "map (\<lambda>(name, c). is_numeric_dtype c) (columns d')
          = map (\<lambda>(name, c). is_numeric_dtype c) (columns d)"
        by (simp_all add: df_select_names df_select_dtypes)
      have "subseq (df_rows (df_select k d)) (df_rows d)"
        by (simp add: df_rows_select subseq_select)
      with sub have "subseq (df_rows d') (df_rows d)"
        by (rule subseq_order.order_trans)
      with names kinds show ?thesis by simp
    qed
  qed
qed

text \<open>
  Claim C10. When \<^verbatim>\<open>apply_filters\<close> returns, the rows of the result are rows of the input,
  with their labels and cells unaltered, in their original relative order (a subsequence,
  so no row is added, repeated or moved), and the columns are the input's columns: the
  same names in the same order, each of the same kind of dtype.
\<close>

theorem apply_filters_keeps_rows_in_order:
  assumes "apply_filters rx fs df = Inr df'"
  shows "subseq (df_rows df') (df_rows df) \<and>
         map fst (columns df') = map fst (columns df) \<and>
         map (\<lambda>(name, c). is_numeric_dtype c) (columns df')
           = map (\<lambda>(name, c). is_numeric_dtype c) (columns df)"
  using assms by (simp add: apply_filters_def df_copy_def run_filters_rows)

lemma ages_ge_20:
  "apply_filters rx [\<lparr>col = ''age'', op = ''>='', val = float_val (Fin 20) ''20.0''\<rparr>] ages
     = Inr \<lparr>index = [1, 2], columns = [(''age'', NumCol [Fin 20, Fin 30])]\<rparr>"
  by (simp add: apply_filters_def df_copy_def filter_mask_def getitem_def ages_def df_select_def
      float_val_def fl_ge_def fl_le_def fl_eq_def)

text \<open>An instance: the rows of \<open>ages\<close> with age at least 20.\<close>

theorem apply_filters_keeps_rows_in_order_witness:
  "apply_filters plain_regex [\<lparr>col = ''age'', op = ''>='', val = float_val (Fin 20) ''20.0''\<rparr>] ages
     = Inr \<lparr>index = [1, 2], columns = [(''age'', NumCol [Fin 20, Fin 30])]\<rparr> \<and>
   subseq (df_rows \<lparr>index = [1, 2], columns = [(''age'', NumCol [Fin 20, Fin 30])]\<rparr>) (df_rows ages) \<and>
   map fst (columns \<lparr>index = [1, 2], columns = [(''age'', NumCol [Fin 20, Fin 30])]\<rparr>)
     = map fst (columns ages)"
  using apply_filters_keeps_rows_in_order [OF ages_ge_20 [of plain_regex]] ages_ge_20 [of plain_regex]
  by simp


subsection \<open>Skipped predicates\<close>

lemma run_filters_append:
  "run_filters rx (fs @ gs) d =
     (case run_filters rx fs d of Inl e \<Rightarrow> Inl e | Inr d' \<Rightarrow> run_filters rx gs d')"
proof (induction fs arbitrary: d)
  case Nil
  show ?case by simp
next
  case (Cons f fs)
  show ?case
    by (cases "filter_mask rx f d") (auto simp: Cons.IH split: option.splits)
qed

lemma run_filters_numeric:
  "run_filters rx fs d = Inr d' \<Longrightarrow> getitem d name = Inr c \<Longrightarrow> is_numeric_dtype c \<Longrightarrow>
     \<exists>c'. getitem d' name = Inr c' \<and> is_numeric_dtype c'"
proof (induction fs arbitrary: d c)
  case Nil
  then show ?case by simp
next
  case (Cons f fs)
  show ?case
  proof (cases "filter_mask rx f d")
    case (Inl e)
    with Cons.prems show ?thesis by simp
  next
    case (Inr r)
    show ?thesis
    proof (cases r)
      case None
      with Inr Cons.prems have "run_filters rx fs d = Inr d'" by simp
      from Cons.IH [OF this Cons.prems(2,3)] show ?thesis .
    next
      case (Some k)
      with Inr Cons.prems have run: "run_filters rx fs (df_select k d) = Inr d'" by simp
      from Cons.prems have "getitem (df_select k d) name = Inr (col_select k c)"
        by (simp add: getitem_select)
      moreover from Cons.prems have "is_numeric_dtype (col_select k c)"
        by (simp add: col_select_dtype)
      ultimately show ?thesis by (rule Cons.IH [OF run])
    qed
  qed
qed

lemma filter_mask_skip:
  "getitem d (col f) = Inr c \<Longrightarrow> is_numeric_dtype c \<Longrightarrow> py_float (val f) = None \<Longrightarrow>
     filter_mask rx f d = Inr None"
  by (cases c) (simp_all add: filter_mask_def)

text \<open>
  Claim C1, as amended. For a predicate on a column of numeric dtype whose operand
  \<^verbatim>\<open>float\<close> cannot convert, the pass over that predicate raises nothing and changes
  nothing: the filter set gives what it gives with the predicate left out, whatever
  stands before and after it in the set.
\<close>

theorem failed_float_skips_predicate:
  assumes "getitem df (col f) = Inr c" and "is_numeric_dtype c" and "py_float (val f) = None"
  shows "apply_filters rx (fs @ f # gs) df = apply_filters rx (fs @ gs) df"
proof (cases "run_filters rx fs df")
  case (Inl e)
  then show ?thesis by (simp add: apply_filters_def df_copy_def run_filters_append)
next
  case (Inr d')
  from run_filters_numeric [OF Inr assms(1,2)]
  obtain c' where "getitem d' (col f) = Inr c'" and "is_numeric_dtype c'" by blast
  then have "filter_mask rx f d' = Inr None" using assms(3) by (rule filter_mask_skip)
  with Inr show ?thesis by (simp add: apply_filters_def df_copy_def run_filters_append)
qed

text \<open>An instance: the text \<^verbatim>\<open>abc\<close> against the numeric column \<open>age\<close>, before a predicate that applies.\<close>

theorem failed_float_skips_predicate_witness:
  "getitem ages (col \<lparr>col = ''age'', op = ''=='', val = text_val ''abc''\<rparr>)
     = Inr (NumCol [Fin 10, Fin 20, Fin 30, NaN]) \<and>
   is_numeric_dtype (NumCol [Fin 10, Fin 20, Fin 30, NaN]) \<and>
   py_float (val \<lparr>col = ''age'', op = ''=='', val = text_val ''abc''\<rparr>) = None \<and>
   apply_filters plain_regex
     ([] @ \<lparr>col = ''age'', op = ''=='', val = text_val ''abc''\<rparr>
        # [\<lparr>col = ''age'', op = ''>='', val = float_val (Fin 20) ''20.0''\<rparr>]) ages
     = Inr \<lparr>index = [1, 2], columns = [(''age'', NumCol [Fin 20, Fin 30])]\<rparr>"
proof -
  have g: "getitem ages (col \<lparr>col = ''age'', op = ''=='', val = text_val ''abc''\<rparr>)
     = Inr (NumCol [Fin 10, Fin 20, Fin 30, NaN])"
    by (simp add: getitem_def ages_def)
  have n: "is_numeric_dtype (NumCol [Fin 10, Fin 20, Fin 30, NaN])" by simp
  have p: "py_float (val \<lparr>col = ''age'', op = ''=='', val = text_val ''abc''\<rparr>) = None"
    by (simp add: text_val_def str_val_def)
  from failed_float_skips_predicate [OF g n p, of plain_regex "[]"
      "[\<lparr>col = ''age'', op = ''>='', val = float_val (Fin 20) ''20.0''\<rparr>]"]
    g n p ages_ge_20 [of plain_regex]
  show ?thesis by simp
qed

text \<open>
  Claim C1 as stated fails for a column of dates. The skip after a failed \<^verbatim>\<open>float\<close> is
  in the numeric branch only; on the column \<open>when\<close> of \<open>visits\<close> the predicate
  \<^verbatim>\<open>==\<close> with the operand \<^verbatim>\<open>tomorrow\<close>, which is no date, is not skipped: it
  removes every row.
\<close>

theorem date_text_predicate_not_skipped:
  "apply_filters plain_regex [\<lparr>col = ''when'', op = ''=='', val = text_val ''tomorrow''\<rparr>] visits
     = Inr \<lparr>index = [], columns = [(''when'', ObjCol [])]\<rparr> \<and>
   apply_filters plain_regex [\<lparr>col = ''when'', op = ''=='', val = text_val ''tomorrow''\<rparr>] visits
     \<noteq> apply_filters plain_regex [] visits"
  by (simp add: apply_filters_def df_copy_def filter_mask_def getitem_def visits_def df_select_def
      text_val_def str_val_def astype_str_def)

subsection \<open>Equality and inequality\<close>

lemma length_rows_with_le: "length (rows_with rs cs) \<le> length rs"
proof (induction cs arbitrary: rs)
  case Nil
  show ?case by simp
next
  case (Cons c cs)
  have "length (rows_with (map2 (\<lambda>(i, r) x. (i, r @ [x])) rs c) cs)
      \<le> length (map2 (\<lambda>(i, r) x. (i, r @ [x])) rs c)"
    by (rule Cons.IH)
  then show ?case by simp
qed

lemma length_rows_with_col: "c \<in> set cs \<Longrightarrow> length (rows_with rs cs) \<le> length c"
proof (induction cs arbitrary: rs)
  case Nil
  then show ?case by simp
next
  case (Cons a cs)
  show ?case
  proof (cases "c = a")
    case True
    have "length (rows_with (map2 (\<lambda>(i, r) x. (i, r @ [x])) rs a) cs)
        \<le> length (map2 (\<lambda>(i, r) x. (i, r @ [x])) rs a)"
      by (rule length_rows_with_le)
    with True show ?thesis by simp
  next
    case False
    with Cons.prems have "c \<in> set cs" by simp
    from Cons.IH [OF this] show ?thesis by simp
  qed
qed

lemma length_df_rows_col:
  assumes "getitem df name = Inr c"
  shows "length (df_rows df) \<le> length (col_cells c)"
proof -
  from assms have "map_of (columns df) name = Some c"
    by (simp add: getitem_def split: option.splits)
  then have "(name, c) \<in> set (columns df)" by (rule map_of_SomeD)
  then have "col_cells c \<in> set (map (\<lambda>(name, c). col_cells c) (columns df))" by force
  then show ?thesis unfolding df_rows_def by (rule length_rows_with_col)
qed

lemma rows_split:
  assumes "getitem df name = Inr c" and "length m = length (col_cells c)"
  shows "mset (df_rows (df_select m df)) + mset (df_rows (df_select (map Not m) df))
           = mset (df_rows df)"
proof -
  from assms have "length (df_rows df) \<le> length m"
    by (simp add: length_df_rows_col)
  then show ?thesis by (simp add: df_rows_select mset_select_split)
qed

text \<open>
  Claim C6, as amended. On a column of the table, when the predicate is evaluated (the
  column is not numeric, or \<^verbatim>\<open>float\<close> converts the operand), \<^verbatim>\<open>==\<close> and \<^verbatim>\<open>!=\<close> with
  the same operand keep complementary row positions: each row is kept by exactly one of
  the two, and together the two results hold the rows of the table. When the predicate is
  skipped (numeric column, operand that \<^verbatim>\<open>float\<close> rejects), both return the whole table.
\<close>

theorem eq_ne_partition:
  assumes "getitem df c = Inr colv"
  shows "if is_numeric_dtype colv \<and> py_float v = None
         then apply_filters rx [\<lparr>col = c, op = ''=='', val = v\<rparr>] df = Inr df \<and>
              apply_filters rx [\<lparr>col = c, op = ''!='', val = v\<rparr>] df = Inr df
         else (\<exists>m. length m = length (col_cells colv) \<and>
                apply_filters rx [\<lparr>col = c, op = ''=='', val = v\<rparr>] df = Inr (df_select m df) \<and>
                apply_filters rx [\<lparr>col = c, op = ''!='', val = v\<rparr>] df
                  = Inr (df_select (map Not m) df) \<and>
                mset (df_rows (df_select m df)) + mset (df_rows (df_select (map Not m) df))
                  = mset (df_rows df))"
proof (cases colv)
  case (NumCol xs)
  show ?thesis
  proof (cases "py_float v")
    case None
    with NumCol assms show ?thesis
      by (simp add: apply_filters_def df_copy_def filter_mask_def)
  next
    case (Some w)
    let ?m = "map (\<lambda>x. fl_eq x w) xs"
    have len: "length ?m = length (col_cells colv)" using NumCol by simp
    have e: "apply_filters rx [\<lparr>col = c, op = ''=='', val = v\<rparr>] df = Inr (df_select ?m df)"
      using NumCol Some assms by (simp add: apply_filters_def df_copy_def filter_mask_def)
    have n: "apply_filters rx [\<lparr>col = c, op = ''!='', val = v\<rparr>] df
        = Inr (df_select (map Not ?m) df)"
      using NumCol Some assms
      by (simp add: apply_filters_def df_copy_def filter_mask_def fl_ne_def comp_def)
    have ex: "\<exists>m. length m = length (col_cells colv) \<and>
        apply_filters rx [\<lparr>col = c, op = ''=='', val = v\<rparr>] df = Inr (df_select m df) \<and>
        apply_filters rx [\<lparr>col = c, op = ''!='', val = v\<rparr>] df = Inr (df_select (map Not m) df) \<and>
        mset (df_rows (df_select m df)) + mset (df_rows (df_select (map Not m) df))
          = mset (df_rows df)"
      using len e n rows_split [OF assms len] by blast
    with Some show ?thesis by simp
  qed
next
  case (ObjCol xs)
  let ?m = "map (\<lambda>c. c = Str (py_str v)) (astype_str xs)"
  have len: "length ?m = length (col_cells colv)" using ObjCol by (simp add: astype_str_def)
  have e: "apply_filters rx [\<lparr>col = c, op = ''=='', val = v\<rparr>] df = Inr (df_select ?m df)"
    using ObjCol assms by (simp add: apply_filters_def df_copy_def filter_mask_def)
  have n: "apply_filters rx [\<lparr>col = c, op = ''!='', val = v\<rparr>] df
      = Inr (df_select (map Not ?m) df)"
    using ObjCol assms by (simp add: apply_filters_def df_copy_def filter_mask_def comp_def)
  have ex: "\<exists>m. length m = length (col_cells colv) \<and>
      apply_filters rx [\<lparr>col = c, op = ''=='', val = v\<rparr>] df = Inr (df_select m df) \<and>
      apply_filters rx [\<lparr>col = c, op = ''!='', val = v\<rparr>] df = Inr (df_select (map Not m) df) \<and>
      mset (df_rows (df_select m df)) + mset (df_rows (df_select (map Not m) df))
        = mset (df_rows df)"
    using len e n rows_split [OF assms len] by blast
  with ObjCol show ?thesis by simp
qed

lemma getitem_ages: "getitem ages ''age'' = Inr (NumCol [Fin 10, Fin 20, Fin 30, NaN])"
  by (simp add: getitem_def ages_def)

text \<open>An instance: \<open>age == 20\<close> and \<open>age != 20\<close> on \<open>ages\<close>.\<close>

theorem eq_ne_partition_witness:
  "getitem ages ''age'' = Inr (NumCol [Fin 10, Fin 20, Fin 30, NaN]) \<and>
   (\<exists>m. length m = 4 \<and>
      apply_filters plain_regex [\<lparr>col = ''age'', op = ''=='', val = float_val (Fin 20) ''20.0''\<rparr>] ages
        = Inr (df_select m ages) \<and>
      apply_filters plain_regex [\<lparr>col = ''age'', op = ''!='', val = float_val (Fin 20) ''20.0''\<rparr>] ages
        = Inr (df_select (map Not m) ages) \<and>
      mset (df_rows (df_select m ages)) + mset (df_rows (df_select (map Not m) ages))
        = mset (df_rows ages))"
  using eq_ne_partition [OF getitem_ages, of "float_val (Fin 20) ''20.0''" plain_regex] getitem_ages
  by (simp add: float_val_def eval_nat_numeral)

text \<open>
  Claim C6 as stated fails for a skipped predicate: with the operand \<^verbatim>\<open>abc\<close> on the
  numeric column \<open>age\<close>, \<^verbatim>\<open>==\<close> and \<^verbatim>\<open>!=\<close> both keep all four rows, so the two
  selections are not disjoint.
\<close>

theorem eq_ne_both_keep_all_when_skipped:
  "apply_filters plain_regex [\<lparr>col = ''age'', op = ''=='', val = text_val ''abc''\<rparr>] ages = Inr ages \<and>
   apply_filters plain_regex [\<lparr>col = ''age'', op = ''!='', val = text_val ''abc''\<rparr>] ages = Inr ages \<and>
   df_rows ages = [(0, [NumCell (Fin 10)]), (1, [NumCell (Fin 20)]),
                   (2, [NumCell (Fin 30)]), (3, [NumCell NaN])]"
  by (simp add: apply_filters_def df_copy_def filter_mask_def getitem_def ages_def text_val_def str_val_def
      df_rows_def)

subsection \<open>Scenarios\<close>

text \<open>
  Claim C7. On the table whose numeric column \<open>age\<close> holds 10, 20, 30 and a missing
  value, the single predicate \<open>(age, >=, 20)\<close> returns exactly the rows with age 20 and
  age 30; the row with the missing value is not among them.
\<close>

theorem age_at_least_20:
  "apply_filters rx [\<lparr>col = ''age'', op = ''>='', val = float_val (Fin 20) ''20.0''\<rparr>] ages
     = Inr \<lparr>index = [1, 2], columns = [(''age'', NumCol [Fin 20, Fin 30])]\<rparr> \<and>
   df_rows \<lparr>index = [1, 2], columns = [(''age'', NumCol [Fin 20, Fin 30])]\<rparr>
     = [(1, [NumCell (Fin 20)]), (2, [NumCell (Fin 30)])]"
  by (simp add: ages_ge_20 df_rows_def)

text \<open>
  Claim C5 does not hold of the code. The column is converted with \<^verbatim>\<open>astype(str)\<close>
  before \<^verbatim>\<open>str.contains(..., na=False)\<close> sees it, so a missing cell is the text
  \<^verbatim>\<open>nan\<close> by then and \<^verbatim>\<open>na=False\<close> has nothing left to act on: the operand
  \<^verbatim>\<open>nan\<close> selects the row with the missing city under \<^verbatim>\<open>contains\<close>, and
  \<^verbatim>\<open>not contains\<close> drops it.
\<close>

theorem contains_matches_missing_cell:
  "apply_filters plain_regex [\<lparr>col = ''city'', op = ''contains'', val = str_val ''nan'' (Some NaN)\<rparr>] cities
     = Inr \<lparr>index = [1], columns = [(''city'', ObjCol [Missing])]\<rparr> \<and>
   apply_filters plain_regex [\<lparr>col = ''city'', op = ''not contains'', val = str_val ''nan'' (Some NaN)\<rparr>] cities
     = Inr \<lparr>index = [0], columns = [(''city'', ObjCol [Str ''NYC''])]\<rparr>"
  by (simp add: apply_filters_def df_copy_def filter_mask_def getitem_def cities_def df_select_def
      text_val_def str_val_def astype_str_def str_contains_def plain_regex_def plain_pattern_def ascii_lower_def
      sublist_code Let_def)

section \<open>Effects and aggregation\<close>

subsection \<open>The store\<close>

lemma run_filters_store_frame:
  assumes "out < length h" and "run_filters_store rx fs h out = (h', r)"
  shows "take (length h) h' = h \<and> length h \<le> length h' \<and>
         (case r of
            Inl e \<Rightarrow> run_filters rx fs (h ! out) = Inl e
          | Inr a \<Rightarrow> a < length h' \<and> (a = out \<or> length h \<le> a) \<and>
                     run_filters rx fs (h ! out) = Inr (h' ! a))"
  using assms
proof (induction fs arbitrary: h out)
  case Nil
  then show ?case by auto
next
  case (Cons f fs)
  show ?case
  proof (cases "filter_mask rx f (h ! out)")
    case (Inl e)
    with Cons.prems show ?thesis by auto
  next
    case (Inr m)
    show ?thesis
    proof (cases m)
      case None
      with Inr Cons.prems have "run_filters_store rx fs h out = (h', r)" by simp
      from Cons.IH [OF Cons.prems(1) this] Inr None show ?thesis by (cases r) auto
    next
      case (Some k)
      let ?d = "df_select k (h ! out)"
      let ?h1 = "h @ [?d]"
      from Inr Some Cons.prems have run: "run_filters_store rx fs ?h1 (length h) = (h', r)"
        by (simp add: alloc_def)
      have lt: "length h < length ?h1" by simp
      from Cons.IH [OF lt run]
      have pre: "take (length ?h1) h' = ?h1" and len: "length ?h1 \<le> length h'"
        and res: "(case r of
            Inl e \<Rightarrow> run_filters rx fs (?h1 ! length h) = Inl e
          | Inr a \<Rightarrow> a < length h' \<and> (a = length h \<or> length ?h1 \<le> a) \<and>
                     run_filters rx fs (?h1 ! length h) = Inr (h' ! a))"
        by simp_all
      have "take (length h) h' = take (length h) (take (length ?h1) h')"
        by (simp add: min_def)
      also have "\<dots> = take (length h) ?h1" by (simp only: pre)
      also have "\<dots> = h" by simp
      finally have keep: "take (length h) h' = h" .
      from len have len': "length h \<le> length h'" by simp
      from res Inr Some have "(case r of
            Inl e \<Rightarrow> run_filters rx (f # fs) (h ! out) = Inl e
          | Inr a \<Rightarrow> a < length h' \<and> (a = out \<or> length h \<le> a) \<and>
                     run_filters rx (f # fs) (h ! out) = Inr (h' ! a))"
        by (cases r) auto
      with keep len' show ?thesis by simp
    qed
  qed
qed

text \<open>
  Claim C8. \<^verbatim>\<open>apply_filters\<close> does not mutate its input: in the store after the call,
  every frame that existed before it, the input table among them, holds exactly the labels,
  columns and cells it held before, whether the call returns or raises; and when it
  returns, the result is a frame at a fresh address, other than the input's, holding the
  evaluator's result.
\<close>

theorem apply_filters_leaves_input:
  assumes "df < length h"
  shows "case apply_filters_store rx fs h df of
           (h', r) \<Rightarrow>
             take (length h) h' = h \<and> h' ! df = h ! df \<and>
             (case r of
                Inl e \<Rightarrow> apply_filters rx fs (h ! df) = Inl e
              | Inr a \<Rightarrow> length h \<le> a \<and> a < length h' \<and> a \<noteq> df \<and>
                         apply_filters rx fs (h ! df) = Inr (h' ! a))"
proof -
  obtain h' r where run: "run_filters_store rx fs (h @ [h ! df]) (length h) = (h', r)"
    by (cases "run_filters_store rx fs (h @ [h ! df]) (length h)")
  have lt: "length h < length (h @ [h ! df])" by simp
  from run_filters_store_frame [OF lt run]
  have pre: "take (length (h @ [h ! df])) h' = h @ [h ! df]"
    and len: "length (h @ [h ! df]) \<le> length h'"
    and res: "(case r of
        Inl e \<Rightarrow> run_filters rx fs ((h @ [h ! df]) ! length h) = Inl e
      | Inr a \<Rightarrow> a < length h' \<and> (a = length h \<or> length (h @ [h ! df]) \<le> a) \<and>
                 run_filters rx fs ((h @ [h ! df]) ! length h) = Inr (h' ! a))"
    by simp_all
  have "take (length h) h' = take (length h) (take (length (h @ [h ! df])) h')"
    by (simp add: min_def)
  also have "\<dots> = take (length h) (h @ [h ! df])" by (simp only: pre)
  also have "\<dots> = h" by simp
  finally have keep: "take (length h) h' = h" .
  from assms have "h' ! df = take (length h) h' ! df" by simp
  with keep have same: "h' ! df = h ! df" by simp
  from res assms have "(case r of
        Inl e \<Rightarrow> apply_filters rx fs (h ! df) = Inl e
      | Inr a \<Rightarrow> length h \<le> a \<and> a < length h' \<and> a \<noteq> df \<and>
                 apply_filters rx fs (h ! df) = Inr (h' ! a))"
    by (cases r) (auto simp: apply_filters_def df_copy_def)
  with keep same run show ?thesis
    by (simp add: apply_filters_store_def alloc_def df_copy_def)
qed

text \<open>An instance: a store holding \<open>ages\<close> alone, filtered by age at least 20.\<close>

theorem apply_filters_leaves_input_witness:
  "(0::nat) < length [ages] \<and>
   apply_filters_store plain_regex
     [\<lparr>col = ''age'', op = ''>='', val = float_val (Fin 20) ''20.0''\<rparr>] [ages] 0
     = ([ages, ages, \<lparr>index = [1, 2], columns = [(''age'', NumCol [Fin 20, Fin 30])]\<rparr>], Inr 2) \<and>
   apply_filters plain_regex
     [\<lparr>col = ''age'', op = ''>='', val = float_val (Fin 20) ''20.0''\<rparr>] ([ages] ! 0)
     = Inr \<lparr>index = [1, 2], columns = [(''age'', NumCol [Fin 20, Fin 30])]\<rparr>"
proof -
  have run: "apply_filters_store plain_regex
     [\<lparr>col = ''age'', op = ''>='', val = float_val (Fin 20) ''20.0''\<rparr>] [ages] 0
     = ([ages, ages, \<lparr>index = [1, 2], columns = [(''age'', NumCol [Fin 20, Fin 30])]\<rparr>], Inr 2)"
    by (simp add: apply_filters_store_def alloc_def df_copy_def filter_mask_def getitem_def
        ages_def df_select_def float_val_def fl_ge_def fl_le_def fl_eq_def)
  have lt: "(0::nat) < length [ages]" by simp
  from apply_filters_leaves_input [OF lt, of plain_regex
      "[\<lparr>col = ''age'', op = ''>='', val = float_val (Fin 20) ''20.0''\<rparr>]"] run
  show ?thesis by simp
qed


subsection \<open>Counting per group\<close>

lemma length_group_values:
  "length vs = length ws \<Longrightarrow> length (group_values ks vs k) = length (group_values ks ws k)"
proof (induction ks arbitrary: vs ws)
  case Nil
  show ?case by (simp add: group_values_def)
next
  case (Cons a ks)
  show ?case
  proof (cases vs)
    case Nil
    with Cons.prems show ?thesis by (simp add: group_values_def)
  next
    case vs: (Cons v vs')
    with Cons.prems obtain w ws' where ws: "ws = w # ws'" and "length vs' = length ws'"
      by (cases ws) simp_all
    from Cons.IH [OF this(2)] vs ws show ?thesis by (simp add: group_values_def)
  qed
qed

lemma map2_same: "map2 h (map f us) (map g us) = map (\<lambda>k. h (f k) (g k)) us"
  by (induction us) simp_all

lemma groupby_reduce_keys: "fst (groupby_reduce agg kc vs) = fst (groupby_reduce agg' kc ws)"
  by (cases kc) (simp_all add: Let_def)

lemma length_groupby_reduce:
  "length (snd (groupby_reduce agg kc vs)) = length (snd (groupby_reduce agg' kc ws))"
  by (cases kc) (simp_all add: Let_def)

lemma group_size_split:
  assumes "length vs = length ws"
  shows "length (group_values ks vs k)
       = length (filter P (group_values ks ws k)) + length (filter (\<lambda>v. \<not> P v) (group_values ks ws k))"
  using length_group_values [OF assms, of ks k] by (simp add: sum_length_filter_compl)

lemma groupby_size_split:
  assumes "length vs = length ws"
  shows "snd (groupby_reduce length kc vs)
       = map2 (+) (snd (groupby_reduce (\<lambda>g. length (filter P g)) kc ws))
                  (snd (groupby_reduce (\<lambda>g. length (filter (\<lambda>v. \<not> P v) g)) kc ws))"
  by (cases kc) (simp_all add: Let_def map2_same group_size_split [OF assms])

lemma filter_none: "list_all P g \<Longrightarrow> filter (\<lambda>v. \<not> P v) g = []"
  by (induction g) simp_all

lemma list_all_group_values: "list_all P vs \<Longrightarrow> list_all P (group_values ks vs k)"
proof (induction ks arbitrary: vs)
  case Nil
  show ?case by (simp add: group_values_def)
next
  case (Cons a ks)
  show ?case
  proof (cases vs)
    case Nil
    then show ?thesis by (simp add: group_values_def)
  next
    case (Cons v vs')
    with Cons.prems have "list_all P vs'" and "P v" by simp_all
    from Cons.IH [OF this(1)] this(2) Cons show ?thesis by (simp add: group_values_def)
  qed
qed

lemma map2_add_zero:
  "map2 (+) (map f us) (map (\<lambda>k. 0) us) = map f (us :: 'a list)" for f :: "'a \<Rightarrow> nat"
  by (induction us) simp_all

lemma groupby_no_missing:
  assumes "list_all P ws"
  shows "map2 (+) (snd (groupby_reduce (\<lambda>g. length (filter P g)) kc ws))
                  (snd (groupby_reduce (\<lambda>g. length (filter (\<lambda>v. \<not> P v) g)) kc ws))
       = snd (groupby_reduce (\<lambda>g. length (filter P g)) kc ws)"
  by (cases kc)
     (simp_all add: Let_def filter_none [OF list_all_group_values [OF assms]] map2_add_zero)

lemma wf_df_length:
  assumes "wf_df df" and "getitem df name = Inr c"
  shows "length (col_cells c) = length (index df)"
proof -
  from assms(2) have "map_of (columns df) name = Some c"
    by (simp add: getitem_def split: option.splits)
  then have "(name, c) \<in> set (columns df)" by (rule map_of_SomeD)
  with assms(1) show ?thesis by (auto simp: wf_df_def list_all_iff)
qed

text \<open>
  Claim C4, as amended. For a table, a grouping column \<open>x\<close> and a measure column \<open>y\<close> of
  numeric dtype, other than \<open>x\<close> (and \<open>x\<close> not named \<^verbatim>\<open>count\<close>), the aggregation with
  \<^verbatim>\<open>count\<close> and the row-count aggregation without a measure give the same groups in the
  same order; the value of \<^verbatim>\<open>count\<close> for a group is the number of its rows whose measure
  is not missing, so the row count of each group is that value plus the number of the
  group's rows whose measure is missing. The two agree on every group when no measure
  value is missing.
\<close>

theorem count_is_rows_minus_missing:
  assumes "wf_df df" and "getitem df x = Inr kc" and "getitem df y = Inr yc"
    and "is_numeric_dtype yc" and "y \<noteq> []" and "x \<noteq> y" and "x \<noteq> ''count''"
  shows "\<exists>K cs ms.
           groupby_count df x y = Inr (K, cs) \<and>
           groupby_missing df x y = Inr (K, ms) \<and>
           groupby_size df x = Inr (K, map2 (+) cs ms) \<and>
           length ms = length cs \<and>
           bar_count_data df x (Some y)
             = Inr \<lparr>index = [0..<length cs],
                    columns = [(x, K), (y, NumCol (map (\<lambda>n. Fin (of_nat n)) cs))]\<rparr> \<and>
           bar_count_data df x None
             = Inr \<lparr>index = [0..<length cs],
                    columns = [(x, K), (''count'', NumCol (map (\<lambda>n. Fin (of_nat n)) (map2 (+) cs ms)))]\<rparr> \<and>
           (list_all notna (col_cells yc) \<longrightarrow> map2 (+) cs ms = cs)"
proof -
  let ?c = "groupby_reduce (\<lambda>g. length (filter notna g)) kc (col_cells yc)"
  let ?m = "groupby_reduce (\<lambda>g. length (filter (\<lambda>v. \<not> notna v) g)) kc (col_cells yc)"
  let ?s = "groupby_reduce length kc (index df)"
  have len: "length (index df) = length (col_cells yc)"
    using wf_df_length [OF assms(1,3)] by simp
  have keys_m: "fst ?m = fst ?c" by (rule groupby_reduce_keys)
  have keys_s: "fst ?s = fst ?c" by (rule groupby_reduce_keys)
  have vals: "snd ?s = map2 (+) (snd ?c) (snd ?m)" by (rule groupby_size_split [OF len])
  have lens: "length (snd ?m) = length (snd ?c)" by (rule length_groupby_reduce)
  have c: "groupby_count df x y = Inr (fst ?c, snd ?c)"
    using assms(2,3) by (simp add: groupby_count_def)
  have m: "groupby_missing df x y = Inr (fst ?c, snd ?m)"
    using assms(2,3) keys_m by (simp add: groupby_missing_def prod_eq_iff)
  have s: "groupby_size df x = Inr (fst ?c, map2 (+) (snd ?c) (snd ?m))"
    using assms(2) keys_s vals by (simp add: groupby_size_def prod_eq_iff)
  have bc: "bar_count_data df x (Some y)
      = Inr \<lparr>index = [0..<length (snd ?c)],
             columns = [(x, fst ?c), (y, NumCol (map (\<lambda>n. Fin (of_nat n)) (snd ?c)))]\<rparr>"
    using assms(3,4,5,6) c by (simp add: bar_count_data_def count_frame_def reset_index_def)
  have bs: "bar_count_data df x None
      = Inr \<lparr>index = [0..<length (snd ?c)],
             columns = [(x, fst ?c),
               (''count'', NumCol (map (\<lambda>n. Fin (of_nat n)) (map2 (+) (snd ?c) (snd ?m))))]\<rparr>"
    using assms(7) s lens by (simp add: bar_count_data_def size_frame_def reset_index_def)
  have nm: "list_all notna (col_cells yc) \<longrightarrow> map2 (+) (snd ?c) (snd ?m) = snd ?c"
    by (simp add: groupby_no_missing)
  from c m s lens bc bs nm show ?thesis by blast
qed

lemma people_count:
  "bar_count_data people ''city'' (Some ''age'')
     = Inr \<lparr>index = [0, 1],
            columns = [(''city'', ObjCol [Str ''A'', Str ''B'']), (''age'', NumCol [Fin 1, Fin 1])]\<rparr>"
  by (simp add: bar_count_data_def count_frame_def groupby_count_def reset_index_def getitem_def
      people_def group_keys_def group_values_def Let_def upt_rec)

lemma people_size:
  "bar_count_data people ''city'' None
     = Inr \<lparr>index = [0, 1],
            columns = [(''city'', ObjCol [Str ''A'', Str ''B'']), (''count'', NumCol [Fin 2, Fin 1])]\<rparr>"
  by (simp add: bar_count_data_def size_frame_def groupby_size_def reset_index_def getitem_def
      people_def group_keys_def group_values_def Let_def upt_rec)


lemma people_wf: "wf_df people"
  by (simp add: wf_df_def people_def)

lemma people_city: "getitem people ''city'' = Inr (ObjCol [Str ''B'', Str ''A'', Str ''A''])"
  by (simp add: getitem_def people_def)

lemma people_age: "getitem people ''age'' = Inr (NumCol [Fin 30, Fin 10, NaN])"
  by (simp add: getitem_def people_def)

text \<open>An instance: \<open>people\<close> grouped by city, with age as the measure.\<close>

theorem count_is_rows_minus_missing_witness:
  "wf_df people \<and>
   getitem people ''city'' = Inr (ObjCol [Str ''B'', Str ''A'', Str ''A'']) \<and>
   getitem people ''age'' = Inr (NumCol [Fin 30, Fin 10, NaN]) \<and>
   is_numeric_dtype (NumCol [Fin 30, Fin 10, NaN]) \<and>
   ''age'' \<noteq> [] \<and> ''city'' \<noteq> ''age'' \<and> ''city'' \<noteq> ''count'' \<and>
   (\<exists>K cs ms.
      groupby_count people ''city'' ''age'' = Inr (K, cs) \<and>
      groupby_missing people ''city'' ''age'' = Inr (K, ms) \<and>
      groupby_size people ''city'' = Inr (K, map2 (+) cs ms) \<and>
      length ms = length cs \<and>
      bar_count_data people ''city'' (Some ''age'')
        = Inr \<lparr>index = [0, 1],
               columns = [(''city'', ObjCol [Str ''A'', Str ''B'']), (''age'', NumCol [Fin 1, Fin 1])]\<rparr> \<and>
      bar_count_data people ''city'' None
        = Inr \<lparr>index = [0, 1],
               columns = [(''city'', ObjCol [Str ''A'', Str ''B'']), (''count'', NumCol [Fin 2, Fin 1])]\<rparr>)"
proof -
  have n: "is_numeric_dtype (NumCol [Fin 30, Fin 10, NaN])" by simp
  have y: "''age'' \<noteq> []" and xy: "''city'' \<noteq> ''age''" and xc: "''city'' \<noteq> ''count''"
    by simp_all
  from count_is_rows_minus_missing [OF people_wf people_city people_age n y xy xc]
  obtain K cs ms where
    "groupby_count people ''city'' ''age'' = Inr (K, cs)"
    "groupby_missing people ''city'' ''age'' = Inr (K, ms)"
    "groupby_size people ''city'' = Inr (K, map2 (+) cs ms)"
    "length ms = length cs"
    by blast
  with people_count people_size have "\<exists>K cs ms.
      groupby_count people ''city'' ''age'' = Inr (K, cs) \<and>
      groupby_missing people ''city'' ''age'' = Inr (K, ms) \<and>
      groupby_size people ''city'' = Inr (K, map2 (+) cs ms) \<and>
      length ms = length cs \<and>
      bar_count_data people ''city'' (Some ''age'')
        = Inr \<lparr>index = [0, 1],
               columns = [(''city'', ObjCol [Str ''A'', Str ''B'']), (''age'', NumCol [Fin 1, Fin 1])]\<rparr> \<and>
      bar_count_data people ''city'' None
        = Inr \<lparr>index = [0, 1],
               columns = [(''city'', ObjCol [Str ''A'', Str ''B'']), (''count'', NumCol [Fin 2, Fin 1])]\<rparr>"
    by blast
  with people_wf people_city people_age n y xy xc show ?thesis by blast
qed

text \<open>
  Claim C4 as stated fails when the measure has a missing value: in \<open>people\<close> the group of
  city \<^verbatim>\<open>A\<close> has two rows, one of them with no age, and \<^verbatim>\<open>count\<close> gives 1 for it where
  the row count gives 2.
\<close>

theorem count_differs_from_row_count:
  "bar_count_data people ''city'' (Some ''age'')
     = Inr \<lparr>index = [0, 1],
            columns = [(''city'', ObjCol [Str ''A'', Str ''B'']), (''age'', NumCol [Fin 1, Fin 1])]\<rparr> \<and>
   bar_count_data people ''city'' None
     = Inr \<lparr>index = [0, 1],
            columns = [(''city'', ObjCol [Str ''A'', Str ''B'']), (''count'', NumCol [Fin 2, Fin 1])]\<rparr> \<and>
   NumCol [Fin 1, Fin 1] \<noteq> NumCol [Fin 2, Fin 1]"
  by (simp add: people_count people_size)

end
